theory Spec2Isabelle
  imports Complex_Main "HOL-Library.Sublist"
begin

section \<open>Python strings\<close>

text \<open>
  The module is Python 3 and handles the orchestrator's output as \<^verbatim>\<open>str\<close>. A \<^typ>\<open>string\<close>
  stands for a \<^verbatim>\<open>str\<close> whose characters have code points below 256, one \<^typ>\<open>char\<close> per
  character. \<^verbatim>\<open>str.splitlines()\<close> and \<^verbatim>\<open>str.strip()\<close> are built-ins of the language; they
  are written out here as the language reference describes them.
\<close>

abbreviation LF :: char where "LF \<equiv> CHR 0x0A"
abbreviation CR :: char where "CR \<equiv> CHR 0x0D"

definition is_linebreak :: "char \<Rightarrow> bool" where
  \<comment> \<open>the line boundaries of \<^verbatim>\<open>str.splitlines\<close>: LF, VT, FF, CR, FS, GS, RS, NEL\<close>
  "is_linebreak c \<longleftrightarrow>
     c \<in> set [CHR 0x0A, CHR 0x0B, CHR 0x0C, CHR 0x0D, CHR 0x1C, CHR 0x1D, CHR 0x1E, CHR 0x85]"

definition isspace :: "char \<Rightarrow> bool" where
  \<comment> \<open>\<^verbatim>\<open>str.isspace\<close> on one character: TAB, LF, VT, FF, CR, FS, GS, RS, US, space, NEL, NBSP\<close>
  "isspace c \<longleftrightarrow>
     c \<in> set [CHR 0x09, CHR 0x0A, CHR 0x0B, CHR 0x0C, CHR 0x0D, CHR 0x1C, CHR 0x1D, CHR 0x1E,
              CHR 0x1F, CHR 0x20, CHR 0x85, CHR 0xA0]"

text \<open>
  \<^verbatim>\<open>s.splitlines()\<close>: the lines of \<open>s\<close> without their line breaks. CR followed by LF is one
  line break; a line break at the very end opens no further line; the empty string has no
  line. The first argument collects the current line in reverse.
\<close>

fun splitlines_from :: "string \<Rightarrow> string \<Rightarrow> string list" where
  "splitlines_from cur [] = (if cur = [] then [] else [rev cur])"
| "splitlines_from cur (c # cs) =
     (if c = CR then
        (case cs of
           [] \<Rightarrow> [rev cur]
         | d # ds \<Rightarrow> if d = LF then rev cur # splitlines_from [] ds
                    else rev cur # splitlines_from [] (d # ds))
      else if is_linebreak c then rev cur # splitlines_from [] cs
      else splitlines_from (c # cur) cs)"

definition splitlines :: "string \<Rightarrow> string list" where
  "splitlines s = splitlines_from [] s"

definition strip :: "string \<Rightarrow> string" where
  \<comment> \<open>\<^verbatim>\<open>s.strip()\<close>: leading and trailing whitespace removed\<close>
  "strip s = rev (dropWhile isspace (rev (dropWhile isspace s)))"

section \<open>Errors, processes and the host\<close>

text \<open>
  A raised exception is a value: \<open>Inl e\<close> in a result of type \<open>exn + 'a\<close>. The module
  itself raises \<^verbatim>\<open>click.ClickException\<close> and catches \<^verbatim>\<open>ImportError\<close>; every other exception
  (a failed process, an error of the operating system) is \<open>OtherError\<close> with its name.
  \<open>ImportError\<close> stands for the class with its subclasses, as \<^verbatim>\<open>except ImportError\<close> matches
  them.
\<close>

datatype exn = ImportError | ClickException string | OtherError string

record invocation =
  argv :: "string list"
  cwd :: string
  internal :: bool

record grp_entry =
  gr_name :: string
  gr_mem :: "string list"

text \<open>
  What the machine answers. The process runner (\<^verbatim>\<open>call\<close>, \<^verbatim>\<open>check_output\<close> and \<^verbatim>\<open>cd\<close> of
  \<^verbatim>\<open>click_project.lib\<close>) and the modules \<^verbatim>\<open>grp\<close> and \<^verbatim>\<open>getpass\<close> are outside
  \<^verbatim>\<open>docker.py\<close>: the outcome of each of their calls is a field of the host.
\<close>

record host =
  check_output_result :: "invocation \<Rightarrow> exn + string"
  call_result :: "invocation \<Rightarrow> exn option"
  import_grp :: "exn option"
  getgrall :: "exn + grp_entry list"
  getuser :: "exn + string"

text \<open>
  The arguments of \<^verbatim>\<open>docker_generic_commands\<close>, with \<^verbatim>\<open>directory\<close> and \<^verbatim>\<open>extra_options\<close> already
  called when they are callables, and the \<^verbatim>\<open>os.path.abspath\<close> of the process.
\<close>

record config =
  directory :: string
  extra_options :: "string list"
  abspath :: "string \<Rightarrow> string"

record cache_entry =
  services :: "string list"
  createdAt :: real

type_synonym cache_key = "string \<times> string list"

text \<open>
  The cache on disk, and the processes started so far (the oldest first). Clock readings are
  seconds, as real numbers.
\<close>

record state =
  cache :: "cache_key \<rightharpoonup> cache_entry"
  spawned :: "invocation list"

definition abs_directory :: "config \<Rightarrow> string" where
  "abs_directory cfg = abspath cfg (directory cfg)"

definition check_output :: "host \<Rightarrow> invocation \<Rightarrow> state \<Rightarrow> (exn + string) \<times> state" where
  \<comment> \<open>Modelled from the spec: \<^verbatim>\<open>click_project.lib.check_output\<close>, the process runner in capture
      mode: it starts the process and returns its standard output, or raises.\<close>
  "check_output h p st = (check_output_result h p, st\<lparr>spawned := spawned st @ [p]\<rparr>)"

definition call :: "host \<Rightarrow> invocation \<Rightarrow> state \<Rightarrow> (exn + unit) \<times> state" where
  \<comment> \<open>Modelled from the spec: \<^verbatim>\<open>click_project.lib.call\<close>, the process runner in pass-through
      mode: it starts the process in \<open>cwd\<close>, or raises.\<close>
  "call h p st =
     ((case call_result h p of None \<Rightarrow> Inr () | Some e \<Rightarrow> Inl e),
      st\<lparr>spawned := spawned st @ [p]\<rparr>)"

definition docker_compose ::
  "config \<Rightarrow> host \<Rightarrow> string list \<Rightarrow> bool \<Rightarrow> state \<Rightarrow> (exn + unit) \<times> state" where
  "docker_compose cfg h args intern st =
     call h \<lparr>argv = [''docker-compose''] @ extra_options cfg @ args,
             cwd = abs_directory cfg, internal = intern\<rparr> st"

section \<open>Service discovery\<close>

definition compute_lines :: "string \<Rightarrow> string list" where
  \<comment> \<open>the list comprehension of \<^verbatim>\<open>compute\<close>: \<^verbatim>\<open>[s.strip() for s in out.splitlines()]\<close>\<close>
  "compute_lines out = map strip (splitlines out)"

definition compute_invocation :: "cache_key \<Rightarrow> invocation" where
  \<comment> \<open>the process \<^verbatim>\<open>compute\<close> starts, inside \<^verbatim>\<open>cd(directory, internal=True)\<close>\<close>
  "compute_invocation key =
     \<lparr>argv = [''docker-compose''] @ snd key @ [''config'', ''--services''],
      cwd = fst key, internal = True\<rparr>"

definition compute :: "host \<Rightarrow> cache_key \<Rightarrow> state \<Rightarrow> (exn + string list) \<times> state" where
  "compute h key st =
     (case check_output h (compute_invocation key) st of
        (Inl e, st') \<Rightarrow> (Inl e, st')
      | (Inr out, st') \<Rightarrow> (Inr (compute_lines out), st'))"

definition cache_disk ::
  "real \<Rightarrow> (cache_key \<Rightarrow> state \<Rightarrow> (exn + string list) \<times> state) \<Rightarrow>
   real \<Rightarrow> cache_key \<Rightarrow> state \<Rightarrow> (exn + string list) \<times> state" where
  \<comment> \<open>Modelled from the spec: the decorator \<^verbatim>\<open>click_project.core.cache_disk\<close>. An entry of the
      key younger than \<open>expire\<close> seconds is returned as it is; otherwise the function runs, and
      its result, when it returns one, replaces the entry with \<open>createdAt = now\<close>. A failure
      is passed on and writes nothing.\<close>
  "cache_disk expire f now key st =
     (let miss =
        (case f key st of
           (Inl e, st') \<Rightarrow> (Inl e, st')
         | (Inr v, st') \<Rightarrow>
             (Inr v, st'\<lparr>cache := (cache st')(key \<mapsto> \<lparr>services = v, createdAt = now\<rparr>)\<rparr>))
      in case cache st key of
           None \<Rightarrow> miss
         | Some entry \<Rightarrow> if now - createdAt entry < expire then (Inr (services entry), st) else miss)"

definition choices :: "config \<Rightarrow> host \<Rightarrow> real \<Rightarrow> state \<Rightarrow> (exn + string list) \<times> state" where
  \<comment> \<open>\<^verbatim>\<open>DockerServices.choices\<close>, read at clock time \<open>now\<close>\<close>
  "choices cfg h now st = cache_disk 60 (compute h) now (abs_directory cfg, extra_options cfg) st"

fun startswith :: "string \<Rightarrow> string \<Rightarrow> bool" where
  \<comment> \<open>Modelled from the spec: \<^verbatim>\<open>click_project.completion.startswith\<close>, a case-sensitive match
      of \<open>incomplete\<close> against the first characters of the candidate.\<close>
  "startswith s [] = True"
| "startswith [] (c # cs) = False"
| "startswith (x # xs) (c # cs) = (x = c \<and> startswith xs cs)"

definition complete ::
  "config \<Rightarrow> host \<Rightarrow> real \<Rightarrow> string \<Rightarrow> state \<Rightarrow> (exn + string list) \<times> state" where
  \<comment> \<open>\<^verbatim>\<open>DockerServices.complete\<close>: no handler around \<^verbatim>\<open>self.choices\<close>\<close>
  "complete cfg h now incomplete st =
     (case choices cfg h now st of
        (Inl e, st') \<Rightarrow> (Inl e, st')
      | (Inr cs, st') \<Rightarrow> (Inr (filter (\<lambda>choice. startswith choice incomplete) cs), st'))"

section \<open>The docker-group check\<close>

fun user_groups :: "host \<Rightarrow> grp_entry list \<Rightarrow> exn + string list" where
  \<comment> \<open>\<^verbatim>\<open>[g.gr_name for g in ... if getpass.getuser() in g.gr_mem]\<close>: the user is asked for
      once per group\<close>
  "user_groups h [] = Inr []"
| "user_groups h (g # gs) =
     (case getuser h of
        Inl e \<Rightarrow> Inl e
      | Inr u \<Rightarrow>
          (case user_groups h gs of
             Inl e \<Rightarrow> Inl e
           | Inr names \<Rightarrow> Inr (if u \<in> set (gr_mem g) then gr_name g # names else names)))"

definition not_in_group_message :: string where
  "not_in_group_message =
     ''The current user is not in the docker group.'' @
     '' Please add it to '' @ [CHR 0x27] @ ''/etc/group'' @ [CHR 0x27] @
     '' or use '' @ [CHR 0x27] @ ''fix-up'' @ [CHR 0x27]"

definition docker_group_body :: "host \<Rightarrow> exn + unit" where
  \<comment> \<open>the body of the \<^verbatim>\<open>try\<close> in \<^verbatim>\<open>user_in_docker_group\<close>\<close>
  "docker_group_body h =
     (case import_grp h of
        Some e \<Rightarrow> Inl e
      | None \<Rightarrow>
          (case getgrall h of
             Inl e \<Rightarrow> Inl e
           | Inr gs \<Rightarrow>
               (case user_groups h gs of
                  Inl e \<Rightarrow> Inl e
                | Inr groups \<Rightarrow>
                    if ''docker'' \<notin> set groups
                    then Inl (ClickException not_in_group_message)
                    else Inr ())))"

definition user_in_docker_group :: "host \<Rightarrow> exn + unit" where
  \<comment> \<open>\<^verbatim>\<open>except ImportError: pass\<close>\<close>
  "user_in_docker_group h =
     (case docker_group_body h of
        Inl e \<Rightarrow> if e = ImportError then Inr () else Inl e
      | Inr u \<Rightarrow> Inr u)"

section \<open>The subcommands\<close>

fun scale_args :: "string list \<Rightarrow> string list \<Rightarrow> string list" where
  \<comment> \<open>\<^verbatim>\<open>for scale in scales: up_args += ['--scale', scale]\<close>\<close>
  "scale_args up_args [] = up_args"
| "scale_args up_args (scale # scales) = scale_args (up_args @ [''--scale'', scale]) scales"

definition up ::
  "config \<Rightarrow> host \<Rightarrow> string list \<Rightarrow> bool \<Rightarrow> string list \<Rightarrow> state \<Rightarrow> (exn + unit) \<times> state" where
  "up cfg h service force_recreate scales st =
     (case user_in_docker_group h of
        Inl e \<Rightarrow> (Inl e, st)
      | Inr u \<Rightarrow>
          docker_compose cfg h
            ([''up'', ''-d'', ''--build''] @
             scale_args [] scales @
             (if force_recreate then [''--force-recreate''] else []) @
             service)
            False st)"

definition down :: "config \<Rightarrow> host \<Rightarrow> bool \<Rightarrow> state \<Rightarrow> (exn + unit) \<times> state" where
  "down cfg h remove_orphans st =
     docker_compose cfg h
       ([''down''] @ (if remove_orphans then [''--remove-orphans''] else [])) False st"

definition remove_orphans_default :: bool where
  \<comment> \<open>\<^verbatim>\<open>@option('--remove-orphans/--no-remove-orphans', default=True, ...)\<close>\<close>
  "remove_orphans_default = True"

definition down_command :: "config \<Rightarrow> host \<Rightarrow> bool option \<Rightarrow> state \<Rightarrow> (exn + unit) \<times> state" where
  \<comment> \<open>\<^verbatim>\<open>down\<close> as the command line reaches it: \<open>None\<close> when neither form of the option is
      given, \<open>Some True\<close> for \<^verbatim>\<open>--remove-orphans\<close>, \<open>Some False\<close> for \<^verbatim>\<open>--no-remove-orphans\<close>\<close>
  "down_command cfg h given st =
     down cfg h (case given of None \<Rightarrow> remove_orphans_default | Some b \<Rightarrow> b) st"

definition ps :: "config \<Rightarrow> host \<Rightarrow> string list \<Rightarrow> state \<Rightarrow> (exn + unit) \<times> state" where
  \<comment> \<open>\<^verbatim>\<open>service = service or []\<close>, then \<^verbatim>\<open>['ps'] + list(service)\<close>\<close>
  "ps cfg h service st =
     (let service = (if service \<noteq> [] then service else [])
      in docker_compose cfg h ([''ps''] @ service) False st)"

definition status :: "config \<Rightarrow> host \<Rightarrow> string list \<Rightarrow> state \<Rightarrow> (exn + unit) \<times> state" where
  "status cfg h service st =
     (let service = (if service \<noteq> [] then service else [])
      in docker_compose cfg h ([''ps''] @ service) False st)"

section \<open>Concrete inputs\<close>

text \<open>Text made of lines, each closed by a line feed: what the orchestrator prints.\<close>

definition unlines :: "string list \<Rightarrow> string" where
  "unlines ls = concat (map (\<lambda>l. l @ [LF]) ls)"

definition example_config :: config where
  "example_config =
     \<lparr>directory = ''/srv/app'', extra_options = [''-p'', ''sim''], abspath = (\<lambda>p. p)\<rparr>"

definition initial_state :: state where
  "initial_state = \<lparr>cache = Map.empty, spawned = []\<rparr>"

text \<open>
  A host whose orchestrator answers every capture with \<open>r\<close>, on which every other process
  succeeds and where the user \<^verbatim>\<open>alice\<close> is a member of the group \<^verbatim>\<open>docker\<close>.
\<close>

definition host_answering :: "exn + string \<Rightarrow> host" where
  "host_answering r =
     \<lparr>check_output_result = (\<lambda>p. r), call_result = (\<lambda>p. None), import_grp = None,
      getgrall = Inr [\<lparr>gr_name = ''docker'', gr_mem = [''alice'']\<rparr>], getuser = Inr ''alice''\<rparr>"

text \<open>
  A host with two projects: the orchestrator reports the service \<^verbatim>\<open>web\<close> in \<^verbatim>\<open>/srv/app\<close> and
  the service \<^verbatim>\<open>db\<close> anywhere else.
\<close>

definition two_project_host :: host where
  "two_project_host =
     (host_answering (Inr []))\<lparr>check_output_result :=
        (\<lambda>p. if cwd p = ''/srv/app'' then Inr (unlines [''web'']) else Inr (unlines [''db'']))\<rparr>"

section \<open>Lines and whitespace\<close>

lemma splitlines_from_line:
  "\<forall>c\<in>set l. \<not> is_linebreak c \<Longrightarrow>
   splitlines_from cur (l @ LF # rest) = (rev cur @ l) # splitlines_from [] rest"
proof (induction l arbitrary: cur)
  case Nil
  show ?case by (simp add: is_linebreak_def)
next
  case (Cons c l)
  from Cons.prems have c: "\<not> is_linebreak c" and l: "\<forall>c\<in>set l. \<not> is_linebreak c"
    by simp_all
  from c have "c \<noteq> CR" by (auto simp: is_linebreak_def)
  with c Cons.IH[OF l, of "c # cur"] show ?case by simp
qed

lemma splitlines_unlines:
  "\<forall>l\<in>set ls. \<forall>c\<in>set l. \<not> is_linebreak c \<Longrightarrow> splitlines (unlines ls) = ls"
proof (induction ls)
  case Nil
  show ?case by (simp add: splitlines_def unlines_def)
next
  case (Cons l ls)
  then have "splitlines_from [] (unlines ls) = ls" by (simp add: splitlines_def)
  moreover have "splitlines_from [] (l @ LF # unlines ls) = l # splitlines_from [] (unlines ls)"
    using Cons.prems splitlines_from_line[of l "[]" "unlines ls"] by simp
  ultimately show ?case by (simp add: splitlines_def unlines_def)
qed

section \<open>Discovery and its cache\<close>

lemma compute_ok:
  "check_output_result h (compute_invocation key) = Inr out \<Longrightarrow>
   compute h key st =
     (Inr (compute_lines out), st\<lparr>spawned := spawned st @ [compute_invocation key]\<rparr>)"
  by (simp add: compute_def check_output_def)

lemma compute_fail:
  "check_output_result h (compute_invocation key) = Inl e \<Longrightarrow>
   compute h key st = (Inl e, st\<lparr>spawned := spawned st @ [compute_invocation key]\<rparr>)"
  by (simp add: compute_def check_output_def)

lemma choices_hit:
  "cache st (abs_directory cfg, extra_options cfg) = Some entry \<Longrightarrow>
   now - createdAt entry < 60 \<Longrightarrow>
   choices cfg h now st = (Inr (services entry), st)"
  by (simp add: choices_def cache_disk_def Let_def)

lemma choices_miss_ok:
  assumes "\<forall>entry. cache st (abs_directory cfg, extra_options cfg) = Some entry \<longrightarrow>
             60 \<le> now - createdAt entry"
    and "check_output_result h (compute_invocation (abs_directory cfg, extra_options cfg)) = Inr out"
  shows "choices cfg h now st =
    (Inr (compute_lines out),
     st\<lparr>spawned := spawned st @ [compute_invocation (abs_directory cfg, extra_options cfg)],
        cache := (cache st)((abs_directory cfg, extra_options cfg) \<mapsto>
                   \<lparr>services = compute_lines out, createdAt = now\<rparr>)\<rparr>)"
  using assms by (auto simp: choices_def cache_disk_def compute_ok Let_def split: option.splits)

lemma choices_miss_fail:
  assumes "\<forall>entry. cache st (abs_directory cfg, extra_options cfg) = Some entry \<longrightarrow>
             60 \<le> now - createdAt entry"
    and "check_output_result h (compute_invocation (abs_directory cfg, extra_options cfg)) = Inl e"
  shows "choices cfg h now st =
    (Inl e, st\<lparr>spawned := spawned st @ [compute_invocation (abs_directory cfg, extra_options cfg)]\<rparr>)"
  using assms by (auto simp: choices_def cache_disk_def compute_fail Let_def split: option.splits)

lemma startswith_prefix: "startswith s p \<longleftrightarrow> prefix p s"
  by (induction s p rule: startswith.induct) auto

lemma choices_frame:
  "key \<noteq> (abs_directory cfg, extra_options cfg) \<Longrightarrow>
   cache (snd (choices cfg h now st)) key = cache st key"
  by (simp add: choices_def cache_disk_def compute_def check_output_def Let_def
      split: option.splits sum.splits)

lemma choices_result_local:
  "cache st (abs_directory cfg, extra_options cfg) = cache st' (abs_directory cfg, extra_options cfg) \<Longrightarrow>
   fst (choices cfg h now st) = fst (choices cfg h now st')"
  by (simp add: choices_def cache_disk_def compute_def check_output_def Let_def
      split: option.splits sum.splits)

lemma choices_returns_live_entry:
  "fst (choices cfg h now st) = Inr xs \<Longrightarrow>
   \<exists>entry. cache (snd (choices cfg h now st)) (abs_directory cfg, extra_options cfg) = Some entry \<and>
     services entry = xs \<and> now - createdAt entry < 60"
  by (auto simp: choices_def cache_disk_def compute_def check_output_def Let_def
      split: option.splits sum.splits if_splits)

text \<open>
  C1 (as the code has it). \<^verbatim>\<open>compute\<close> splits the captured output into lines and trims each
  line, and it discards nothing: for an output of lines \<open>ls\<close>, each closed by a line feed,
  the discovered sequence is the trimmed \<open>ls\<close>, with one entry per line. A blank line
  gives the empty name: the output \<^verbatim>\<open>"web\nworker\n\n  db  \n"\<close> gives
  \<^verbatim>\<open>["web", "worker", "", "db"]\<close>.
\<close>

theorem discovery_keeps_blank_lines:
  assumes "check_output_result h (compute_invocation key) = Inr (unlines ls)"
    and "\<forall>l\<in>set ls. \<forall>c\<in>set l. \<not> is_linebreak c"
  shows "fst (compute h key st) = Inr (map strip ls)"
  using assms by (simp add: compute_ok compute_lines_def splitlines_unlines)

theorem discovery_keeps_blank_lines_witness:
  "unlines [''web'', ''worker'', '''', ''  db  ''] =
     ''web'' @ [LF] @ ''worker'' @ [LF, LF] @ ''  db  '' @ [LF] \<and>
   fst (compute (host_answering (Inr (''web'' @ [LF] @ ''worker'' @ [LF, LF] @ ''  db  '' @ [LF])))
          (''/srv/app'', [''-p'', ''sim'']) initial_state) = Inr [''web'', ''worker'', '''', ''db'']"
proof -
  have u: "unlines [''web'', ''worker'', '''', ''  db  ''] =
      ''web'' @ [LF] @ ''worker'' @ [LF, LF] @ ''  db  '' @ [LF]"
    by (simp add: unlines_def)
  have a: "check_output_result
      (host_answering (Inr (''web'' @ [LF] @ ''worker'' @ [LF, LF] @ ''  db  '' @ [LF])))
      (compute_invocation (''/srv/app'', [''-p'', ''sim''])) =
      Inr (unlines [''web'', ''worker'', '''', ''  db  ''])"
    by (simp add: host_answering_def unlines_def)
  have b: "\<forall>l\<in>set [''web'', ''worker'', '''', ''  db  '']. \<forall>c\<in>set l. \<not> is_linebreak c"
    by (simp add: is_linebreak_def)
  have s: "map strip [''web'', ''worker'', '''', ''  db  ''] = [''web'', ''worker'', '''', ''db'']"
    by (simp add: strip_def isspace_def)
  show ?thesis
    using discovery_keeps_blank_lines[OF a b, of initial_state] u s by simp
qed

text \<open>
  C1 as stated fails: on the output \<^verbatim>\<open>"web\nworker\n\n  db  \n"\<close> the discovered sequence is
  not \<^verbatim>\<open>["web", "worker", "db"]\<close>.
\<close>

theorem discovery_drops_blank_lines_counterexample:
  "fst (compute (host_answering (Inr (''web'' @ [LF] @ ''worker'' @ [LF, LF] @ ''  db  '' @ [LF])))
          (''/srv/app'', [''-p'', ''sim'']) initial_state) \<noteq> Inr [''web'', ''worker'', ''db'']"
  by (simp add: compute_def check_output_def host_answering_def compute_lines_def splitlines_def
      strip_def is_linebreak_def isspace_def)

text \<open>
  C2 (as the code has it). When no entry of the key is younger than 60 seconds and the
  orchestrator fails with \<open>e\<close>, the listing \<^verbatim>\<open>choices\<close> raises \<open>e\<close>, and so does the
  completion \<^verbatim>\<open>complete\<close>, which has no handler; the cache is left as it was, so the failure
  is not cached.
\<close>

theorem discovery_failure_propagates:
  assumes "\<forall>entry. cache st (abs_directory cfg, extra_options cfg) = Some entry \<longrightarrow>
             60 \<le> now - createdAt entry"
    and "check_output_result h (compute_invocation (abs_directory cfg, extra_options cfg)) = Inl e"
  shows "fst (choices cfg h now st) = Inl e \<and>
         fst (complete cfg h now incomplete st) = Inl e \<and>
         cache (snd (choices cfg h now st)) = cache st \<and>
         cache (snd (complete cfg h now incomplete st)) = cache st"
  using choices_miss_fail[OF assms] by (simp add: complete_def)

theorem discovery_failure_propagates_witness:
  "fst (choices example_config (host_answering (Inl (OtherError ''CalledProcessError''))) 0
          initial_state) = Inl (OtherError ''CalledProcessError'') \<and>
   fst (complete example_config (host_answering (Inl (OtherError ''CalledProcessError''))) 0 ''w''
          initial_state) = Inl (OtherError ''CalledProcessError'') \<and>
   cache (snd (choices example_config (host_answering (Inl (OtherError ''CalledProcessError''))) 0
          initial_state)) = Map.empty \<and>
   cache (snd (complete example_config (host_answering (Inl (OtherError ''CalledProcessError''))) 0
          ''w'' initial_state)) = Map.empty"
proof -
  have a: "\<forall>entry. cache initial_state (abs_directory example_config, extra_options example_config)
             = Some entry \<longrightarrow> 60 \<le> 0 - createdAt entry"
    by (simp add: initial_state_def)
  have b: "check_output_result (host_answering (Inl (OtherError ''CalledProcessError'')))
      (compute_invocation (abs_directory example_config, extra_options example_config)) =
      Inl (OtherError ''CalledProcessError'')"
    by (simp add: host_answering_def)
  show ?thesis
    using discovery_failure_propagates[OF a b, of "''w''"] by (simp add: initial_state_def)
qed

text \<open>
  C2 as stated fails: with an empty cache and an orchestrator that fails, the completion of
  the empty prefix does not return the empty sequence.
\<close>

theorem completion_swallows_failure_counterexample:
  "fst (complete example_config (host_answering (Inl (OtherError ''CalledProcessError''))) 0 ''''
         initial_state) \<noteq> Inr []"
  by (simp add: complete_def choices_def cache_disk_def compute_def check_output_def
      host_answering_def initial_state_def Let_def)

text \<open>
  C3. Let a listing at time \<open>t0\<close> find no entry of the key younger than 60 seconds, and let
  the orchestrator answer. The call starts one process and stores the entry with
  \<open>createdAt = t0\<close>. A second listing at any time \<open>t1\<close> with \<open>t1 - t0 < 60\<close> returns the
  stored sequence and changes nothing, whatever the orchestrator would answer then: the two
  calls have started exactly one process. A listing at \<open>t2\<close> with \<open>60 \<le> t2 - t0\<close> (so also
  when more than 60 seconds have passed) starts a second process and replaces the entry by
  the new sequence with \<open>createdAt = t2\<close>.
\<close>

theorem cache_entry_lives_sixty_seconds:
  fixes cfg :: config and st :: state and h0 :: host and t0 :: real
  defines "key \<equiv> (abs_directory cfg, extra_options cfg)"
  defines "st1 \<equiv> snd (choices cfg h0 t0 st)"
  assumes "\<forall>entry. cache st key = Some entry \<longrightarrow> 60 \<le> t0 - createdAt entry"
    and "check_output_result h0 (compute_invocation key) = Inr out"
  shows "fst (choices cfg h0 t0 st) = Inr (compute_lines out) \<and>
         spawned st1 = spawned st @ [compute_invocation key] \<and>
         cache st1 key = Some \<lparr>services = compute_lines out, createdAt = t0\<rparr> \<and>
         (t1 - t0 < 60 \<longrightarrow>
            choices cfg h1 t1 st1 = (Inr (compute_lines out), st1)) \<and>
         (60 \<le> t2 - t0 \<and> check_output_result h2 (compute_invocation key) = Inr out2 \<longrightarrow>
            choices cfg h2 t2 st1 =
              (Inr (compute_lines out2),
               st1\<lparr>spawned := spawned st @ [compute_invocation key, compute_invocation key],
                   cache := (cache st1)(key \<mapsto> \<lparr>services = compute_lines out2, createdAt = t2\<rparr>)\<rparr>))"
proof -
  have first: "choices cfg h0 t0 st =
    (Inr (compute_lines out),
     st\<lparr>spawned := spawned st @ [compute_invocation key],
        cache := (cache st)(key \<mapsto> \<lparr>services = compute_lines out, createdAt = t0\<rparr>)\<rparr>)"
    using assms(3,4) unfolding key_def by (rule choices_miss_ok)
  then have entry: "cache st1 key = Some \<lparr>services = compute_lines out, createdAt = t0\<rparr>"
    and log: "spawned st1 = spawned st @ [compute_invocation key]"
    by (simp_all add: st1_def)
  have hit: "choices cfg h1 t1 st1 = (Inr (compute_lines out), st1)" if "t1 - t0 < 60"
    using choices_hit[of st1 cfg _ t1 h1] entry that unfolding key_def by fastforce
  have refresh: "choices cfg h2 t2 st1 =
              (Inr (compute_lines out2),
               st1\<lparr>spawned := spawned st @ [compute_invocation key, compute_invocation key],
                   cache := (cache st1)(key \<mapsto> \<lparr>services = compute_lines out2, createdAt = t2\<rparr>)\<rparr>)"
    if "60 \<le> t2 - t0" and "check_output_result h2 (compute_invocation key) = Inr out2"
  proof -
    have "\<forall>entry. cache st1 (abs_directory cfg, extra_options cfg) = Some entry \<longrightarrow>
             60 \<le> t2 - createdAt entry"
      using entry that(1) unfolding key_def by auto
    from choices_miss_ok[OF this that(2)[unfolded key_def]] log show ?thesis
      unfolding key_def by simp
  qed
  from first entry log hit refresh show ?thesis by simp
qed

theorem cache_entry_lives_sixty_seconds_witness:
  "fst (choices example_config (host_answering (Inr (unlines [''web'']))) 100 initial_state) =
     Inr [''web''] \<and>
   spawned (snd (choices example_config (host_answering (Inr (unlines [''web'']))) 100
     initial_state)) = [compute_invocation (''/srv/app'', [''-p'', ''sim''])] \<and>
   choices example_config (host_answering (Inr (unlines [''db''])))  159
     (snd (choices example_config (host_answering (Inr (unlines [''web'']))) 100 initial_state)) =
     (Inr [''web''],
      snd (choices example_config (host_answering (Inr (unlines [''web'']))) 100 initial_state)) \<and>
   choices example_config (host_answering (Inr (unlines [''db'']))) 161
     (snd (choices example_config (host_answering (Inr (unlines [''web'']))) 100 initial_state)) =
     (Inr [''db''],
      \<lparr>cache = [(''/srv/app'', [''-p'', ''sim'']) \<mapsto> \<lparr>services = [''db''], createdAt = 161\<rparr>],
       spawned = [compute_invocation (''/srv/app'', [''-p'', ''sim'']),
                  compute_invocation (''/srv/app'', [''-p'', ''sim''])]\<rparr>)"
proof -
  have k: "(abs_directory example_config, extra_options example_config) =
      (''/srv/app'', [''-p'', ''sim''])"
    by (simp add: example_config_def abs_directory_def)
  have a: "\<forall>entry. cache initial_state (abs_directory example_config, extra_options example_config)
             = Some entry \<longrightarrow> 60 \<le> 100 - createdAt entry"
    by (simp add: initial_state_def)
  have b: "check_output_result (host_answering (Inr (unlines [''web''])))
      (compute_invocation (abs_directory example_config, extra_options example_config)) =
      Inr (unlines [''web''])"
    by (simp add: host_answering_def)
  have c: "check_output_result (host_answering (Inr (unlines [''db''])))
      (compute_invocation (abs_directory example_config, extra_options example_config)) =
      Inr (unlines [''db''])"
    by (simp add: host_answering_def)
  have w: "compute_lines (unlines [''web'']) = [''web'']"
    by (simp add: unlines_def compute_lines_def splitlines_def strip_def is_linebreak_def
        isspace_def)
  have d: "compute_lines (unlines [''db'']) = [''db'']"
    by (simp add: unlines_def compute_lines_def splitlines_def strip_def is_linebreak_def
        isspace_def)
  have s: "snd (choices example_config (host_answering (Inr (unlines [''web'']))) 100
      initial_state) =
      \<lparr>cache = [(''/srv/app'', [''-p'', ''sim'']) \<mapsto> \<lparr>services = [''web''], createdAt = 100\<rparr>],
       spawned = [compute_invocation (''/srv/app'', [''-p'', ''sim''])]\<rparr>"
    using choices_miss_ok[OF a b] by (simp add: k w initial_state_def)
  from cache_entry_lives_sixty_seconds[OF a b,
      of 159 "host_answering (Inr (unlines [''db'']))" 161
         "host_answering (Inr (unlines [''db'']))" "unlines [''db'']"] c
  show ?thesis
    by (simp add: k w d s)
qed

text \<open>
  C5. When the listing returns the sequence \<open>cs\<close>, the completion of \<open>incomplete\<close> returns
  the elements of \<open>cs\<close> that have \<open>incomplete\<close> as a prefix, character for character, a
  subsequence of \<open>cs\<close> in the order of \<open>cs\<close>, and leaves the same state. The empty prefix
  returns all of \<open>cs\<close>; the prefix \<^verbatim>\<open>web\<close> on \<^verbatim>\<open>["web", "worker", "webhook"]\<close> returns
  \<^verbatim>\<open>["web", "webhook"]\<close>.
\<close>

theorem complete_filters_choices:
  assumes "choices cfg h now st = (Inr cs, st')"
  shows "complete cfg h now incomplete st = (Inr (filter (prefix incomplete) cs), st') \<and>
         subseq (filter (prefix incomplete) cs) cs \<and>
         complete cfg h now [] st = (Inr cs, st') \<and>
         (cs = [''web'', ''worker'', ''webhook''] \<longrightarrow>
            complete cfg h now ''web'' st = (Inr [''web'', ''webhook''], st'))"
proof -
  have c: "complete cfg h now p st = (Inr (filter (prefix p) cs), st')" for p
    using assms by (simp add: complete_def startswith_prefix)
  have "filter (prefix ''web'') [''web'', ''worker'', ''webhook''] = [''web'', ''webhook'']"
    by simp
  with c[of incomplete] c[of "[]"] c[of "''web''"] show ?thesis by auto
qed

theorem complete_filters_choices_witness:
  "choices example_config (host_answering (Inr (unlines [''web'', ''worker'', ''webhook''])))
     0 initial_state =
     (Inr [''web'', ''worker'', ''webhook''],
      \<lparr>cache = [(''/srv/app'', [''-p'', ''sim'']) \<mapsto>
                  \<lparr>services = [''web'', ''worker'', ''webhook''], createdAt = 0\<rparr>],
       spawned = [compute_invocation (''/srv/app'', [''-p'', ''sim''])]\<rparr>) \<and>
   fst (complete example_config (host_answering (Inr (unlines [''web'', ''worker'', ''webhook''])))
     0 ''web'' initial_state) = Inr [''web'', ''webhook''] \<and>
   fst (complete example_config (host_answering (Inr (unlines [''web'', ''worker'', ''webhook''])))
     0 ''wo'' initial_state) = Inr [''worker''] \<and>
   fst (complete example_config (host_answering (Inr (unlines [''web'', ''worker'', ''webhook''])))
     0 '''' initial_state) = Inr [''web'', ''worker'', ''webhook'']"
proof -
  have a: "choices example_config (host_answering (Inr (unlines [''web'', ''worker'', ''webhook''])))
     0 initial_state =
     (Inr [''web'', ''worker'', ''webhook''],
      \<lparr>cache = [(''/srv/app'', [''-p'', ''sim'']) \<mapsto>
                  \<lparr>services = [''web'', ''worker'', ''webhook''], createdAt = 0\<rparr>],
       spawned = [compute_invocation (''/srv/app'', [''-p'', ''sim''])]\<rparr>)"
    by (simp add: choices_def cache_disk_def compute_def check_output_def host_answering_def
        initial_state_def example_config_def abs_directory_def Let_def unlines_def
        compute_lines_def splitlines_def strip_def is_linebreak_def isspace_def)
  show ?thesis
    using complete_filters_choices[OF a, of "''wo''"] a by simp
qed

text \<open>
  C8. The cache is a map from keys (absolute directory, extra options) to entries, so a key
  has at most one entry; a listing that returns a sequence returns the services of the
  entry then held under its own key, and that entry is younger than 60 seconds. Two
  configurations with distinct absolute directories have distinct keys, whatever their extra
  options: a listing for the first neither reads nor writes the entry of the second, and
  the result of a listing for the second is the same whether or not the listing for the
  first came before it.
\<close>

theorem distinct_directories_never_share_entries:
  assumes "abs_directory cfg1 \<noteq> abs_directory cfg2"
  shows "cache (snd (choices cfg1 h1 t1 st)) (abs_directory cfg2, extra_options cfg2) =
           cache st (abs_directory cfg2, extra_options cfg2) \<and>
         fst (choices cfg2 h2 t2 (snd (choices cfg1 h1 t1 st))) = fst (choices cfg2 h2 t2 st) \<and>
         (\<forall>xs. fst (choices cfg2 h2 t2 st) = Inr xs \<longrightarrow>
            (\<exists>entry. cache (snd (choices cfg2 h2 t2 st)) (abs_directory cfg2, extra_options cfg2)
                       = Some entry \<and>
                     services entry = xs \<and> t2 - createdAt entry < 60))"
proof -
  from assms have "(abs_directory cfg2, extra_options cfg2) \<noteq> (abs_directory cfg1, extra_options cfg1)"
    by auto
  then have frame: "cache (snd (choices cfg1 h1 t1 st)) (abs_directory cfg2, extra_options cfg2) =
      cache st (abs_directory cfg2, extra_options cfg2)"
    by (rule choices_frame)
  from choices_result_local[OF frame]
  have "fst (choices cfg2 h2 t2 (snd (choices cfg1 h1 t1 st))) = fst (choices cfg2 h2 t2 st)" .
  with frame choices_returns_live_entry[of cfg2 h2 t2 st] show ?thesis by blast
qed

theorem distinct_directories_never_share_entries_witness:
  "abs_directory example_config \<noteq> abs_directory (example_config\<lparr>directory := ''/srv/other''\<rparr>) \<and>
   extra_options example_config = extra_options (example_config\<lparr>directory := ''/srv/other''\<rparr>) \<and>
   fst (choices example_config two_project_host 0 initial_state) = Inr [''web''] \<and>
   cache (snd (choices example_config two_project_host 0 initial_state))
     (''/srv/other'', [''-p'', ''sim'']) = None \<and>
   fst (choices (example_config\<lparr>directory := ''/srv/other''\<rparr>) two_project_host 1
          (snd (choices example_config two_project_host 0 initial_state))) = Inr [''db'']"
proof -
  have a: "abs_directory example_config \<noteq> abs_directory (example_config\<lparr>directory := ''/srv/other''\<rparr>)"
    by (simp add: example_config_def abs_directory_def)
  have w: "fst (choices example_config two_project_host 0 initial_state) = Inr [''web'']"
    by (simp add: choices_def cache_disk_def compute_def check_output_def two_project_host_def
        host_answering_def initial_state_def example_config_def abs_directory_def Let_def
        compute_invocation_def unlines_def compute_lines_def splitlines_def strip_def
        is_linebreak_def isspace_def)
  have d: "fst (choices (example_config\<lparr>directory := ''/srv/other''\<rparr>) two_project_host 1
        initial_state) = Inr [''db'']"
    by (simp add: choices_def cache_disk_def compute_def check_output_def two_project_host_def
        host_answering_def initial_state_def example_config_def abs_directory_def Let_def
        compute_invocation_def unlines_def compute_lines_def splitlines_def strip_def
        is_linebreak_def isspace_def)
  have k: "(abs_directory (example_config\<lparr>directory := ''/srv/other''\<rparr>),
            extra_options (example_config\<lparr>directory := ''/srv/other''\<rparr>)) =
           (''/srv/other'', [''-p'', ''sim''])"
    by (simp add: example_config_def abs_directory_def)
  have e: "cache initial_state (''/srv/other'', [''-p'', ''sim'']) = None"
    by (simp add: initial_state_def)
  from distinct_directories_never_share_entries[OF a, of two_project_host 0 initial_state
      two_project_host 1]
  show ?thesis
    using a w d e unfolding k by (simp add: example_config_def)
qed

section \<open>The check before \<^verbatim>\<open>up\<close>\<close>

text \<open>
  C10. The docker-group check returns normally in two cases only: its body returns, or its
  body raises \<^verbatim>\<open>ImportError\<close>. Every other error of the body is raised by the check: the
  \<^verbatim>\<open>ClickException\<close> of a user who is not in the group, an error of \<^verbatim>\<open>grp.getgrall()\<close>, an
  error of \<^verbatim>\<open>getpass.getuser()\<close>.
\<close>

theorem group_check_swallows_only_import_error:
  "(user_in_docker_group h = Inr () \<longleftrightarrow>
      docker_group_body h = Inr () \<or> docker_group_body h = Inl ImportError) \<and>
   (docker_group_body h = Inl e \<and> e \<noteq> ImportError \<longrightarrow> user_in_docker_group h = Inl e) \<and>
   (import_grp h = Some ImportError \<longrightarrow> user_in_docker_group h = Inr ()) \<and>
   (import_grp h = None \<and> getgrall h = Inr gs \<and> user_groups h gs = Inr names \<and>
    ''docker'' \<notin> set names \<longrightarrow>
      user_in_docker_group h = Inl (ClickException not_in_group_message)) \<and>
   (import_grp h = None \<and> getgrall h = Inl e \<and> e \<noteq> ImportError \<longrightarrow>
      user_in_docker_group h = Inl e) \<and>
   (import_grp h = None \<and> getgrall h = Inr (g # gs) \<and> getuser h = Inl e \<and> e \<noteq> ImportError \<longrightarrow>
      user_in_docker_group h = Inl e)"
proof -
  have 1: "user_in_docker_group h = Inr () \<longleftrightarrow>
      docker_group_body h = Inr () \<or> docker_group_body h = Inl ImportError"
    by (cases "docker_group_body h") (auto simp: user_in_docker_group_def)
  have 2: "user_in_docker_group h = Inl e" if "docker_group_body h = Inl e" "e \<noteq> ImportError"
    using that by (simp add: user_in_docker_group_def)
  have 3: "user_in_docker_group h = Inr ()" if "import_grp h = Some ImportError"
    using that by (simp add: user_in_docker_group_def docker_group_body_def)
  have 4: "user_in_docker_group h = Inl (ClickException not_in_group_message)"
    if "import_grp h = None" "getgrall h = Inr gs" "user_groups h gs = Inr names"
      "''docker'' \<notin> set names"
    using that by (simp add: user_in_docker_group_def docker_group_body_def)
  have 5: "user_in_docker_group h = Inl e"
    if "import_grp h = None" "getgrall h = Inl e" "e \<noteq> ImportError"
    using that by (simp add: user_in_docker_group_def docker_group_body_def)
  have 6: "user_in_docker_group h = Inl e"
    if "import_grp h = None" "getgrall h = Inr (g # gs)" "getuser h = Inl e" "e \<noteq> ImportError"
    using that by (simp add: user_in_docker_group_def docker_group_body_def)
  from 1 2 3 4 5 6 show ?thesis by blast
qed

theorem group_check_swallows_only_import_error_witness:
  "user_in_docker_group ((host_answering (Inr []))\<lparr>import_grp := Some ImportError\<rparr>) = Inr () \<and>
   user_in_docker_group ((host_answering (Inr []))\<lparr>getuser := Inr ''bob''\<rparr>) =
     Inl (ClickException not_in_group_message) \<and>
   user_in_docker_group ((host_answering (Inr []))\<lparr>getgrall := Inl (OtherError ''PermissionError'')\<rparr>) =
     Inl (OtherError ''PermissionError'') \<and>
   user_in_docker_group ((host_answering (Inr []))\<lparr>getuser := Inl (OtherError ''KeyError'')\<rparr>) =
     Inl (OtherError ''KeyError'')"
proof -
  have a: "import_grp ((host_answering (Inr []))\<lparr>import_grp := Some ImportError\<rparr>) =
      Some ImportError"
    by simp
  have b: "import_grp ((host_answering (Inr []))\<lparr>getuser := Inr ''bob''\<rparr>) = None \<and>
      getgrall ((host_answering (Inr []))\<lparr>getuser := Inr ''bob''\<rparr>) =
        Inr [\<lparr>gr_name = ''docker'', gr_mem = [''alice'']\<rparr>] \<and>
      user_groups ((host_answering (Inr []))\<lparr>getuser := Inr ''bob''\<rparr>)
        [\<lparr>gr_name = ''docker'', gr_mem = [''alice'']\<rparr>] = Inr [] \<and>
      ''docker'' \<notin> set []"
    by (simp add: host_answering_def)
  have c: "import_grp ((host_answering (Inr []))\<lparr>getgrall := Inl (OtherError ''PermissionError'')\<rparr>)
        = None \<and>
      getgrall ((host_answering (Inr []))\<lparr>getgrall := Inl (OtherError ''PermissionError'')\<rparr>) =
        Inl (OtherError ''PermissionError'') \<and>
      OtherError ''PermissionError'' \<noteq> ImportError"
    by (simp add: host_answering_def)
  have d: "import_grp ((host_answering (Inr []))\<lparr>getuser := Inl (OtherError ''KeyError'')\<rparr>) = None \<and>
      getgrall ((host_answering (Inr []))\<lparr>getuser := Inl (OtherError ''KeyError'')\<rparr>) =
        Inr (\<lparr>gr_name = ''docker'', gr_mem = [''alice'']\<rparr> # []) \<and>
      getuser ((host_answering (Inr []))\<lparr>getuser := Inl (OtherError ''KeyError'')\<rparr>) =
        Inl (OtherError ''KeyError'') \<and>
      OtherError ''KeyError'' \<noteq> ImportError"
    by (simp add: host_answering_def)
  from group_check_swallows_only_import_error[of
      "(host_answering (Inr []))\<lparr>import_grp := Some ImportError\<rparr>"] a
  have 1: "user_in_docker_group ((host_answering (Inr []))\<lparr>import_grp := Some ImportError\<rparr>) =
      Inr ()"
    by blast
  from group_check_swallows_only_import_error[of
      "(host_answering (Inr []))\<lparr>getuser := Inr ''bob''\<rparr>" _
      "[\<lparr>gr_name = ''docker'', gr_mem = [''alice'']\<rparr>]" "[]"] b
  have 2: "user_in_docker_group ((host_answering (Inr []))\<lparr>getuser := Inr ''bob''\<rparr>) =
     Inl (ClickException not_in_group_message)"
    by blast
  from group_check_swallows_only_import_error[of
      "(host_answering (Inr []))\<lparr>getgrall := Inl (OtherError ''PermissionError'')\<rparr>"
      "OtherError ''PermissionError''"] c
  have 3: "user_in_docker_group
      ((host_answering (Inr []))\<lparr>getgrall := Inl (OtherError ''PermissionError'')\<rparr>) =
     Inl (OtherError ''PermissionError'')"
    by blast
  from group_check_swallows_only_import_error[of
      "(host_answering (Inr []))\<lparr>getuser := Inl (OtherError ''KeyError'')\<rparr>"
      "OtherError ''KeyError''" "[]" _ "\<lparr>gr_name = ''docker'', gr_mem = [''alice'']\<rparr>"] d
  have 4: "user_in_docker_group ((host_answering (Inr []))\<lparr>getuser := Inl (OtherError ''KeyError'')\<rparr>) =
     Inl (OtherError ''KeyError'')"
    by blast
  from 1 2 3 4 show ?thesis by simp
qed

section \<open>Forwarded arguments\<close>

lemma scale_args_append: "scale_args acc scales = acc @ concat (map (\<lambda>s. [''--scale'', s]) scales)"
  by (induction scales arbitrary: acc) simp_all

lemma docker_compose_spawns:
  "docker_compose cfg h args intern st =
     ((case call_result h \<lparr>argv = [''docker-compose''] @ extra_options cfg @ args,
                            cwd = abs_directory cfg, internal = intern\<rparr> of
         None \<Rightarrow> Inr () | Some e \<Rightarrow> Inl e),
      st\<lparr>spawned := spawned st @
            [\<lparr>argv = [''docker-compose''] @ extra_options cfg @ args,
              cwd = abs_directory cfg, internal = intern\<rparr>]\<rparr>)"
  by (simp add: docker_compose_def call_def)

lemma up_after_check:
  "user_in_docker_group h = Inr u \<Longrightarrow>
   up cfg h service force_recreate scales st =
     docker_compose cfg h
       ([''up'', ''-d'', ''--build''] @ concat (map (\<lambda>s. [''--scale'', s]) scales) @
        (if force_recreate then [''--force-recreate''] else []) @ service) False st"
  by (simp add: up_def scale_args_append)

lemma user_groups_filter:
  "getuser h = Inr u \<Longrightarrow>
   user_groups h gs = Inr (map gr_name (filter (\<lambda>g. u \<in> set (gr_mem g)) gs))"
  by (induction gs) simp_all

text \<open>
  C4. Once the docker-group check has passed, \<^verbatim>\<open>up\<close> with \<^verbatim>\<open>force_recreate\<close> set and
  \<^verbatim>\<open>scales = ["web=2"]\<close> starts one process: the orchestrator, after its extra options, with
  the arguments \<^verbatim>\<open>up -d --build --scale web=2 --force-recreate\<close> followed by the requested
  services in their order, in the project directory.
\<close>

theorem up_forwards_scale_and_force_recreate:
  assumes "user_in_docker_group h = Inr ()"
  shows "spawned (snd (up cfg h service True [''web=2''] st)) =
           spawned st @
           [\<lparr>argv = [''docker-compose''] @ extra_options cfg @
                     [''up'', ''-d'', ''--build'', ''--scale'', ''web=2'', ''--force-recreate''] @
                     service,
             cwd = abs_directory cfg, internal = False\<rparr>]"
  using assms by (simp add: up_after_check docker_compose_spawns)

theorem up_forwards_scale_and_force_recreate_witness:
  "user_in_docker_group (host_answering (Inr [])) = Inr () \<and>
   spawned (snd (up example_config (host_answering (Inr [])) [''web'', ''db''] True [''web=2'']
                   initial_state)) =
     [\<lparr>argv = [''docker-compose'', ''-p'', ''sim'', ''up'', ''-d'', ''--build'', ''--scale'',
               ''web=2'', ''--force-recreate'', ''web'', ''db''],
       cwd = ''/srv/app'', internal = False\<rparr>]"
proof -
  have a: "user_in_docker_group (host_answering (Inr [])) = Inr ()"
    by (simp add: user_in_docker_group_def docker_group_body_def host_answering_def)
  show ?thesis
    using up_forwards_scale_and_force_recreate[OF a, of example_config "[''web'', ''db'']"
        initial_state] a
    by (simp add: example_config_def abs_directory_def initial_state_def)
qed

text \<open>
  C6. \<^verbatim>\<open>down\<close> without the option on the command line forwards
  \<^verbatim>\<open>down --remove-orphans\<close> (the option defaults to true); with \<^verbatim>\<open>--no-remove-orphans\<close> it
  forwards \<^verbatim>\<open>down\<close> alone.
\<close>

theorem down_remove_orphans_unless_disabled:
  "spawned (snd (down_command cfg h None st)) =
     spawned st @
     [\<lparr>argv = [''docker-compose''] @ extra_options cfg @ [''down'', ''--remove-orphans''],
       cwd = abs_directory cfg, internal = False\<rparr>] \<and>
   spawned (snd (down_command cfg h (Some False) st)) =
     spawned st @
     [\<lparr>argv = [''docker-compose''] @ extra_options cfg @ [''down''],
       cwd = abs_directory cfg, internal = False\<rparr>]"
  by (simp add: down_command_def down_def remove_orphans_default_def docker_compose_spawns)

text \<open>
  C7. \<^verbatim>\<open>up\<close> runs the docker-group check first. When the check raises, \<^verbatim>\<open>up\<close> raises the same
  error and the state is unchanged: no process has been started. In particular, when the
  groups can be enumerated and \<^verbatim>\<open>docker\<close> is not among the groups of the user, \<^verbatim>\<open>up\<close> fails
  with the \<^verbatim>\<open>ClickException\<close> that tells the user to join the group or to use \<^verbatim>\<open>fix-up\<close>. When
  the module \<^verbatim>\<open>grp\<close> cannot be imported, the check is skipped and \<^verbatim>\<open>up\<close> starts the
  orchestrator.
\<close>

theorem up_checks_docker_group_first:
  "(user_in_docker_group h = Inl e \<longrightarrow>
      up cfg h service force_recreate scales st = (Inl e, st)) \<and>
   (import_grp h = None \<and> getgrall h = Inr gs \<and> user_groups h gs = Inr names \<and>
    ''docker'' \<notin> set names \<longrightarrow>
      up cfg h service force_recreate scales st =
        (Inl (ClickException not_in_group_message), st)) \<and>
   (import_grp h = Some ImportError \<longrightarrow>
      spawned (snd (up cfg h service force_recreate scales st)) =
        spawned st @
        [\<lparr>argv = [''docker-compose''] @ extra_options cfg @ [''up'', ''-d'', ''--build''] @
                  concat (map (\<lambda>s. [''--scale'', s]) scales) @
                  (if force_recreate then [''--force-recreate''] else []) @ service,
          cwd = abs_directory cfg, internal = False\<rparr>])"
proof -
  have "up cfg h service force_recreate scales st = (Inl e, st)"
    if "user_in_docker_group h = Inl e"
    using that by (simp add: up_def)
  moreover have "up cfg h service force_recreate scales st =
      (Inl (ClickException not_in_group_message), st)"
    if "import_grp h = None" "getgrall h = Inr gs" "user_groups h gs = Inr names"
      "''docker'' \<notin> set names"
    using that by (simp add: up_def user_in_docker_group_def docker_group_body_def)
  moreover have "spawned (snd (up cfg h service force_recreate scales st)) =
        spawned st @
        [\<lparr>argv = [''docker-compose''] @ extra_options cfg @ [''up'', ''-d'', ''--build''] @
                  concat (map (\<lambda>s. [''--scale'', s]) scales) @
                  (if force_recreate then [''--force-recreate''] else []) @ service,
          cwd = abs_directory cfg, internal = False\<rparr>]"
    if "import_grp h = Some ImportError"
  proof -
    from that have "user_in_docker_group h = Inr ()"
      by (simp add: user_in_docker_group_def docker_group_body_def)
    then show ?thesis by (simp add: up_after_check docker_compose_spawns)
  qed
  ultimately show ?thesis by blast
qed

theorem up_checks_docker_group_first_witness:
  "up example_config ((host_answering (Inr []))\<lparr>getuser := Inr ''bob''\<rparr>) [''web''] False []
     initial_state =
     (Inl (ClickException not_in_group_message), initial_state) \<and>
   spawned (snd (up example_config ((host_answering (Inr []))\<lparr>import_grp := Some ImportError\<rparr>)
     [''web''] False [] initial_state)) =
     [\<lparr>argv = [''docker-compose'', ''-p'', ''sim'', ''up'', ''-d'', ''--build'', ''web''],
       cwd = ''/srv/app'', internal = False\<rparr>]"
proof -
  have a: "import_grp ((host_answering (Inr []))\<lparr>getuser := Inr ''bob''\<rparr>) = None \<and>
      getgrall ((host_answering (Inr []))\<lparr>getuser := Inr ''bob''\<rparr>) =
        Inr [\<lparr>gr_name = ''docker'', gr_mem = [''alice'']\<rparr>] \<and>
      user_groups ((host_answering (Inr []))\<lparr>getuser := Inr ''bob''\<rparr>)
        [\<lparr>gr_name = ''docker'', gr_mem = [''alice'']\<rparr>] = Inr [] \<and>
      ''docker'' \<notin> set []"
    by (simp add: host_answering_def)
  have b: "import_grp ((host_answering (Inr []))\<lparr>import_grp := Some ImportError\<rparr>) =
      Some ImportError"
    by simp
  from up_checks_docker_group_first[of "(host_answering (Inr []))\<lparr>getuser := Inr ''bob''\<rparr>"
      "ClickException not_in_group_message" example_config "[''web'']" False "[]" initial_state
      "[\<lparr>gr_name = ''docker'', gr_mem = [''alice'']\<rparr>]" "[]"] a
  have one: "up example_config ((host_answering (Inr []))\<lparr>getuser := Inr ''bob''\<rparr>) [''web'']
      False [] initial_state = (Inl (ClickException not_in_group_message), initial_state)"
    by blast
  from up_checks_docker_group_first[of
      "(host_answering (Inr []))\<lparr>import_grp := Some ImportError\<rparr>"
      ImportError example_config "[''web'']" False "[]" initial_state "[]" "[]"] b
  have two: "spawned (snd (up example_config
      ((host_answering (Inr []))\<lparr>import_grp := Some ImportError\<rparr>) [''web''] False []
      initial_state)) =
      [\<lparr>argv = [''docker-compose'', ''-p'', ''sim'', ''up'', ''-d'', ''--build'', ''web''],
        cwd = ''/srv/app'', internal = False\<rparr>]"
    by (simp add: example_config_def abs_directory_def initial_state_def)
  from one two show ?thesis by simp
qed

text \<open>
  C9. \<^verbatim>\<open>ps\<close> and \<^verbatim>\<open>status\<close> are the same command: on every service list both start the
  orchestrator, after its extra options, with \<^verbatim>\<open>ps\<close> followed by the services, in the project
  directory, and both return what that process returns.
\<close>

theorem ps_status_identical:
  "ps cfg h service st = status cfg h service st \<and>
   spawned (snd (ps cfg h service st)) =
     spawned st @
     [\<lparr>argv = [''docker-compose''] @ extra_options cfg @ [''ps''] @ service,
       cwd = abs_directory cfg, internal = False\<rparr>] \<and>
   spawned (snd (status cfg h service st)) =
     spawned st @
     [\<lparr>argv = [''docker-compose''] @ extra_options cfg @ [''ps''] @ service,
       cwd = abs_directory cfg, internal = False\<rparr>]"
  by (simp add: ps_def status_def docker_compose_spawns)

end
